theory Spec2Isabelle
  imports Complex_Main "HOL-Library.AList" "HOL-Library.Log_Nat"
begin

section \<open>Data model of border.py\<close>

text \<open>
  The program is a Python script over Pillow (image processing) and tkinter (GUI).
  Python integers are modelled as \<open>int\<close>, strings as \<open>string\<close> (a character is a code
  point below 256), and a Python float, an IEEE double, as the rational number it holds,
  every operation rounding as the double operation does.
\<close>

datatype Entries = WIDTH_ENTRY | HEIGHT_ENTRY | BORDER_SIZE_HEIGHT_ENTRY | POSTFIX_ENTRY

fun Entries_value :: "Entries \<Rightarrow> string" where
  "Entries_value WIDTH_ENTRY = ''output_width''"
| "Entries_value HEIGHT_ENTRY = ''output_height''"
| "Entries_value BORDER_SIZE_HEIGHT_ENTRY = ''height_border_size''"
| "Entries_value POSTFIX_ENTRY = ''postfix''"

datatype Orientation = NORMAL | CLOCKWISE_90 | CLOCKWISE_180 | CLOCKWISE_270

fun Orientation_value :: "Orientation \<Rightarrow> int" where
  "Orientation_value NORMAL = 1"
| "Orientation_value CLOCKWISE_90 = 8"
| "Orientation_value CLOCKWISE_180 = 3"
| "Orientation_value CLOCKWISE_270 = 6"

definition last_json_data :: string where
  "last_json_data = ''last_config''"

text \<open>Exceptions of the Python run time that the program can raise.\<close>

datatype error =
  OSError | ValueError | ZeroDivisionError | JSONDecodeError | OverflowError | TypeError | KeyError

text \<open>What \<open>add_white_border\<close> returns: \<open>None\<close> (a bare \<open>return\<close>) or a boolean.\<close>

datatype pyval = PyNone | PyBool bool

fun truthy :: "pyval \<Rightarrow> bool" where
  "truthy PyNone = False"
| "truthy (PyBool b) = b"

text \<open>
  A Pillow image, as far as the program reads it: its \<open>size\<close>, its \<open>format\<close>
  attribute, the \<open>dpi\<close> entry of its \<open>info\<close> dictionary and its EXIF tags
  (tag number and value, in file order).
\<close>

record image =
  im_width :: int
  im_height :: int
  im_format :: "string option"
  im_dpi :: "(int \<times> int) option"
  im_exif :: "(nat \<times> int) list"

text \<open>What the program does to the outside world, in order.\<close>

datatype event =
    AskQuestion string string
  | ShowError string string
  | ShowWarning string string
  | ShowInfo string string
  | Print "(string \<times> string) list"
  | Saved string "string option" int "(int \<times> int) option"
  | Popen "string list"

text \<open>The content of a file of the working directory: a JSON object of strings, or not.\<close>

datatype content = JsonObject "(string \<times> string) list" | NotJson

text \<open>
  The state the program runs in: the widgets of the form, the disk, what the user will
  answer to each dialog, Pillow's registries (the format of each file extension, and the
  formats it has an encoder for), and the trace of effects.
\<close>

record world =
  width_entry :: string
  height_entry :: string
  border_size_height_entry :: string
  postfix_entry :: string
  load_combo_text :: string
  load_combo_values :: "string list"
  cwd :: "(string \<times> content) list"
  write_ok :: "string \<Rightarrow> bool"
  image_files :: "(string \<times> image) list"
  dirs :: "string list"
  EXTENSION :: "string \<Rightarrow> string option"
  SAVE :: "string \<Rightarrow> bool"
  user_askquestion :: "string \<Rightarrow> string"
  user_askstring :: "string option"
  user_openfilenames :: "string list"
  user_directory :: string
  trace :: "event list"

definition emit :: "event \<Rightarrow> world \<Rightarrow> world" where
  "emit e st = st\<lparr>trace := trace st @ [e]\<rparr>"

section \<open>Library functions the program calls\<close>

subsection \<open>os.path (Windows flavour: both separators)\<close>

definition is_sep :: "char \<Rightarrow> bool" where
  "is_sep c = (c = CHR ''/'' \<or> c = CHR 0x5C)"

fun rfind_aux :: "(char \<Rightarrow> bool) \<Rightarrow> string \<Rightarrow> int \<Rightarrow> int \<Rightarrow> int" where
  "rfind_aux P [] i r = r"
| "rfind_aux P (c # cs) i r = rfind_aux P cs (i + 1) (if P c then i else r)"

definition rfind :: "(char \<Rightarrow> bool) \<Rightarrow> string \<Rightarrow> int" where
  "rfind P p = rfind_aux P p 0 (- 1)"

text \<open>
  \<open>os.path.splitext\<close>: the extension starts at the last dot of the last path component,
  unless only dots come before it in that component.
\<close>

definition splitext :: "string \<Rightarrow> string \<times> string" where
  "splitext p =
     (let sepIndex = rfind is_sep p;
          dotIndex = rfind (\<lambda>c. c = CHR ''.'') p
      in if dotIndex > sepIndex \<and>
            list_ex (\<lambda>c. c \<noteq> CHR ''.'')
              (take (nat (dotIndex - (sepIndex + 1))) (drop (nat (sepIndex + 1)) p))
         then (take (nat dotIndex) p, drop (nat dotIndex) p)
         else (p, []))"

text \<open>\<open>os.path.basename\<close> of a path without a drive letter.\<close>

definition basename :: "string \<Rightarrow> string" where
  "basename p = drop (nat (rfind is_sep p + 1)) p"

text \<open>\<open>os.path.join\<close> of a directory and a file name that has no separator.\<close>

definition join :: "string \<Rightarrow> string \<Rightarrow> string" where
  "join d f =
     (if d = [] \<or> is_sep (last d) \<or> last d = CHR '':'' then d @ f
      else d @ [CHR 0x5C] @ f)"

text \<open>
  A directory exists when it is among \<open>dirs\<close>, whatever separators end its name; the
  working directory, named by the empty path, always exists. \<open>dirname\<close> is
  \<open>os.path.dirname\<close> of a path without a drive letter.
\<close>

definition rstrip_seps :: "string \<Rightarrow> string" where
  "rstrip_seps d = (let r = rev (dropWhile is_sep (rev d)) in if r = [] then d else r)"

definition dirname :: "string \<Rightarrow> string" where
  "dirname p = rstrip_seps (take (nat (rfind is_sep p + 1)) p)"

definition dir_exists :: "world \<Rightarrow> string \<Rightarrow> bool" where
  "dir_exists st d = (d = [] \<or> rstrip_seps d \<in> set (map rstrip_seps (dirs st)))"

definition lower_char :: "char \<Rightarrow> char" where
  "lower_char c =
     (let n = (of_char c :: nat) in if 65 \<le> n \<and> n \<le> 90 then char_of (n + 32) else c)"

definition lower :: "string \<Rightarrow> string" where
  "lower s = map lower_char s"

subsection \<open>Python floats\<close>

text \<open>
  A double has 53 bits of significand and a binary exponent from -1022 to 1023; below
  that the spacing stays \<open>2 ^ -1074\<close>. \<open>float_round\<close> takes a rational to the nearest
  such number, the even one of two equally near. It knows no largest double: a result of
  magnitude \<open>2 ^ 1024\<close> or more is what the double operation gives as an infinity.
\<close>

definition pow2 :: "int \<Rightarrow> rat" where
  "pow2 k = (if 0 \<le> k then 2 ^ nat k else 1 / 2 ^ nat (- k))"

definition round_half_even :: "rat \<Rightarrow> int" where
  "round_half_even x =
     (let f = \<lfloor>x\<rfloor>; d = x - of_int f
      in if d < 1 / 2 then f else if 1 / 2 < d then f + 1
         else if even f then f else f + 1)"

text \<open>The exponent of a rational other than zero: the largest \<open>e\<close> with \<open>2 ^ e \<le> \<bar>x\<bar>\<close>.\<close>

definition float_exponent :: "rat \<Rightarrow> int" where
  "float_exponent x =
     (if 1 \<le> \<bar>x\<bar> then bitlen \<lfloor>\<bar>x\<bar>\<rfloor> - 1 else - bitlen (\<lceil>1 / \<bar>x\<bar>\<rceil> - 1))"

definition float_round :: "rat \<Rightarrow> rat" where
  "float_round x =
     (if x = 0 then 0
      else (let ulp = pow2 (max (float_exponent x) (- 1022) - 52)
            in of_int (round_half_even (x / ulp)) * ulp))"

definition is_inf :: "rat \<Rightarrow> bool" where
  "is_inf x = (2 ^ 1024 \<le> \<bar>x\<bar>)"

text \<open>
  \<open>float(n)\<close> of an integer, as the subtraction of a float from an integer does it
  first, and the true division \<open>a / b\<close> of two integers: both round correctly, and
  raise \<open>OverflowError\<close> instead of giving an infinity.
\<close>

definition py_float :: "int \<Rightarrow> error + rat" where
  "py_float n =
     (let x = float_round (of_int n) in if is_inf x then Inl OverflowError else Inr x)"

definition true_div :: "int \<Rightarrow> int \<Rightarrow> error + rat" where
  "true_div a b =
     (if b = 0 then Inl ZeroDivisionError
      else (let x = float_round (of_int a / of_int b)
            in if is_inf x then Inl OverflowError else Inr x))"

text \<open>
  The difference of two finite floats, which can be an infinity, and the division of a
  float by 2, which leaves an infinity as it is.
\<close>

definition float_sub :: "rat \<Rightarrow> rat \<Rightarrow> rat" where
  "float_sub x y = float_round (x - y)"

definition float_half :: "rat \<Rightarrow> rat" where
  "float_half x = (if is_inf x then x else float_round (x / 2))"

text \<open>Python's \<open>int(x)\<close> on a finite float: truncation towards zero.\<close>

definition int_trunc :: "rat \<Rightarrow> int" where
  "int_trunc x = (if x < 0 then \<lceil>x\<rceil> else \<lfloor>x\<rfloor>)"

subsection \<open>Pillow\<close>

text \<open>
  \<open>Image.open\<close> reads an image file; a missing or unreadable file raises an
  \<open>OSError\<close>.
\<close>

definition Image_open :: "world \<Rightarrow> string \<Rightarrow> error + image" where
  "Image_open st path =
     (case map_of (image_files st) path of None \<Rightarrow> Inl OSError | Some img \<Rightarrow> Inr img)"

text \<open>
  An image made by a method of another image keeps a copy of the \<open>info\<close> dictionary,
  and its \<open>format\<close> attribute is \<open>None\<close>: only an image read from a file has a format.
\<close>

definition Image_copy :: "image \<Rightarrow> image" where
  "Image_copy img = img\<lparr>im_format := None\<rparr>"

text \<open>\<open>rotate(angle, expand=True)\<close> for the three angles the program uses.\<close>

definition Image_rotate :: "int \<Rightarrow> image \<Rightarrow> image" where
  "Image_rotate angle img =
     (if angle = 90 \<or> angle = 270
      then img\<lparr>im_width := im_height img, im_height := im_width img, im_format := None\<rparr>
      else img\<lparr>im_format := None\<rparr>)"

text \<open>
  Pillow hands a size to its C core as two C integers, and raises \<open>OverflowError\<close> for
  a number that is not one. Its running out of memory on a large image is not modelled.
\<close>

definition c_int :: "int \<Rightarrow> bool" where
  "c_int n = (- (2 ^ 31) \<le> n \<and> n < 2 ^ 31)"

text \<open>\<open>resize\<close> gives an image of the requested size, which must be positive.\<close>

definition Image_resize :: "int \<times> int \<Rightarrow> image \<Rightarrow> error + image" where
  "Image_resize sz img =
     (if \<not> (c_int (fst sz) \<and> c_int (snd sz)) then Inl OverflowError
      else if fst sz < 1 \<or> snd sz < 1 then Inl ValueError
      else Inr (img\<lparr>im_width := fst sz, im_height := snd sz, im_format := None\<rparr>))"

text \<open>
  \<open>ImageOps.expand(image, border=(x, y))\<close> makes a new image, wider by \<open>x\<close> on the
  left and on the right and higher by \<open>y\<close> above and below, and pastes \<open>image\<close> into
  it. A new image has an empty \<open>info\<close>, and its size cannot be negative.
\<close>

definition ImageOps_expand :: "image \<Rightarrow> int \<times> int \<Rightarrow> error + image" where
  "ImageOps_expand img border =
     (let width = fst border + im_width img + fst border;
          height = snd border + im_height img + snd border
      in if width < 0 \<or> height < 0 then Inl ValueError
         else if \<not> (c_int width \<and> c_int height) then Inl OverflowError
         else Inr \<lparr>im_width = width, im_height = height, im_format = None,
                   im_dpi = None, im_exif = []\<rparr>)"

text \<open>
  \<open>save(path, format, quality, dpi)\<close>: without a format, Pillow takes the one that its
  registry gives for the lower-cased extension of the path, and raises \<open>ValueError\<close>
  for an extension it does not know and \<open>KeyError\<close> for a format it has no encoder
  for. It then opens the file for writing, which needs the directory to exist, and runs
  the encoder. The encoders of JPEG and BMP files (MPO and DIB with them) go through the
  density they are given without a test, and raise \<open>TypeError\<close> when it is \<open>None\<close>;
  the file, opened already, is removed, or left empty if it was there before: no image
  can be read from that path any more. Otherwise the file written holds the pixels in the
  format chosen, with the density given. What else an encoder can refuse (a pixel mode its
  format cannot hold, a full disk) is not modelled.
\<close>

definition needs_dpi :: "string \<Rightarrow> bool" where
  "needs_dpi f = (f \<in> set [''JPEG'', ''MPO'', ''BMP'', ''DIB''])"

definition Image_save ::
  "image \<Rightarrow> string \<Rightarrow> string option \<Rightarrow> int \<Rightarrow> (int \<times> int) option \<Rightarrow> world \<Rightarrow> (error + unit) \<times> world"
where
  "Image_save img path fmt quality dpi st =
     (case (case fmt of Some f \<Rightarrow> Some f
                      | None \<Rightarrow> EXTENSION st (lower (snd (splitext path)))) of
        None \<Rightarrow> (Inl ValueError, st)
      | Some f \<Rightarrow>
          (if \<not> SAVE st f then (Inl KeyError, st)
           else if \<not> dir_exists st (dirname path) then (Inl OSError, st)
           else if dpi = None \<and> needs_dpi f then
             (Inl TypeError, st\<lparr>image_files := AList.delete path (image_files st)\<rparr>)
           else
             (Inr (),
              emit (Saved path fmt quality dpi)
                (st\<lparr>image_files :=
                      AList.update path
                        \<lparr>im_width = im_width img, im_height = im_height img,
                         im_format = Some f, im_dpi = dpi, im_exif = []\<rparr>
                        (image_files st)\<rparr>))))"

section \<open>add_white_border\<close>

text \<open>
  Lines 59 to 68: the angle of the corrective rotation, if any. \<open>0x0112\<close> is the EXIF
  orientation tag. The program compares the tag with \<open>is\<close>, which on the small integers
  of CPython is equality.
\<close>

definition exif_rotation :: "image \<Rightarrow> int option" where
  "exif_rotation img =
     (let exif_data = im_exif img in
      if exif_data \<noteq> [] then
        (let orientation = map_of exif_data 0x0112 in
         if orientation = Some (Orientation_value CLOCKWISE_90) then Some 90
         else if orientation = Some (Orientation_value CLOCKWISE_180) then Some 180
         else if orientation = Some (Orientation_value CLOCKWISE_270) then Some 270
         else None)
      else None)"

definition oriented :: "image \<Rightarrow> image" where
  "oriented img =
     (case exif_rotation img of None \<Rightarrow> img | Some angle \<Rightarrow> Image_rotate angle img)"

text \<open>
  Lines 78 to 85: the size to resize to and the border of the other axis, as
  \<open>(resize_width, resize_height, calculated_border_size)\<close>. One of the two sizes is an
  integer, the other and the border are floats. The true division raises for a divisor of
  zero (in the portrait branch \<open>original_height\<close> is above \<open>original_width\<close>, which
  Pillow never makes negative) and for a quotient beyond the doubles; so does the
  conversion of the target size that the subtraction starts with.
\<close>

definition resize_dims ::
  "int \<Rightarrow> int \<Rightarrow> int \<Rightarrow> int \<Rightarrow> int \<Rightarrow> error + rat \<times> rat \<times> rat"
where
  "resize_dims original_width original_height output_width output_height
       longest_side_border_size =
     (if original_height > original_width then
        (let resize_height = output_height - (longest_side_border_size * 2)
         in case true_div (resize_height * original_width) original_height of
              Inl e \<Rightarrow> Inl e
            | Inr resize_width \<Rightarrow>
                (case py_float output_width of
                   Inl e \<Rightarrow> Inl e
                 | Inr w \<Rightarrow>
                     Inr (resize_width, of_int resize_height,
                          float_half (float_sub w resize_width))))
      else
        (let resize_width = output_width - (longest_side_border_size * 2)
         in case true_div (resize_width * original_height) original_width of
              Inl e \<Rightarrow> Inl e
            | Inr resize_height \<Rightarrow>
                (case py_float output_height of
                   Inl e \<Rightarrow> Inl e
                 | Inr h \<Rightarrow>
                     Inr (of_int resize_width, resize_height,
                          float_half (float_sub h resize_height)))))"

definition crop_question :: "string \<Rightarrow> string" where
  "crop_question base =
     ''The current configuration will crop the image '' @ base @
     ''. Do you want to proceed?''"

text \<open>
  Lines 96 to 112: resize, pad, resize again to the target size, save. \<open>int(...)\<close> of
  an infinite border raises \<open>OverflowError\<close>.
\<close>

definition render ::
  "image \<Rightarrow> string \<Rightarrow> int \<Rightarrow> int \<Rightarrow> int \<Rightarrow> rat \<Rightarrow> rat \<Rightarrow> rat \<Rightarrow> world \<Rightarrow> (error + pyval) \<times> world"
where
  "render img_copy new_output_image_path output_width output_height
       longest_side_border_size resize_width resize_height calculated_border_size st =
     (case Image_resize (int_trunc resize_width, int_trunc resize_height) img_copy of
        Inl e \<Rightarrow> (Inl e, st)
      | Inr resized_img \<Rightarrow>
          (if is_inf calculated_border_size then (Inl OverflowError, st)
           else
             (case ImageOps_expand resized_img
                     (if im_height img_copy > im_width img_copy
                      then (int_trunc calculated_border_size, longest_side_border_size)
                      else (longest_side_border_size, int_trunc calculated_border_size)) of
                Inl e \<Rightarrow> (Inl e, st)
              | Inr bordered_img \<Rightarrow>
                  (case Image_resize (output_width, output_height) bordered_img of
                     Inl e \<Rightarrow> (Inl e, st)
                   | Inr bordered_img' \<Rightarrow>
                       (case Image_save bordered_img' new_output_image_path
                               (im_format img_copy) 100 (im_dpi img_copy) st of
                          (Inl e, st') \<Rightarrow> (Inl e, st')
                        | (Inr _, st') \<Rightarrow> (Inr (PyBool True), st'))))))"

text \<open>Lines 70 to 115, on the copy as the orientation step leaves it.\<close>

definition border_image ::
  "image \<Rightarrow> string \<Rightarrow> int \<Rightarrow> int \<Rightarrow> int \<Rightarrow> string \<Rightarrow> world \<Rightarrow> (error + pyval) \<times> world"
where
  "border_image img_copy output_image_path output_width output_height
       longest_side_border_size postfix st =
     (let base = fst (splitext output_image_path);
          ext = snd (splitext output_image_path);
          new_output_image_path = base @ postfix @ ext
      in case resize_dims (im_width img_copy) (im_height img_copy)
                output_width output_height longest_side_border_size of
           Inl e \<Rightarrow> (Inl e, st)
         | Inr (resize_width, resize_height, calculated_border_size) \<Rightarrow>
             (if calculated_border_size < 0 then
                (let st1 = emit (AskQuestion ''Proceed?'' (crop_question base)) st in
                 if user_askquestion st (crop_question base) = ''no''
                 then (Inr PyNone, st1)
                 else render img_copy new_output_image_path output_width output_height
                        longest_side_border_size
                        resize_width resize_height calculated_border_size st1)
              else render img_copy new_output_image_path output_width output_height
                     longest_side_border_size
                     resize_width resize_height calculated_border_size st))"

definition add_white_border ::
  "string \<Rightarrow> string \<Rightarrow> int \<Rightarrow> int \<Rightarrow> int \<Rightarrow> string \<Rightarrow> world \<Rightarrow> (error + pyval) \<times> world"
where
  "add_white_border input_image_path output_image_path output_width output_height
       longest_side_border_size postfix st =
     (case Image_open st input_image_path of
        Inl e \<Rightarrow> (Inl e, st)
      | Inr img \<Rightarrow>
          border_image (oriented (Image_copy img)) output_image_path output_width
            output_height longest_side_border_size postfix st)"

section \<open>Configurations\<close>

definition endswith :: "string \<Rightarrow> string \<Rightarrow> bool" where
  "endswith s suffix =
     (length suffix \<le> length s \<and> drop (length s - length suffix) s = suffix)"

text \<open>\<open>os.listdir()\<close> gives the names of the files of the working directory.\<close>

definition get_all_config_files :: "world \<Rightarrow> string list" where
  "get_all_config_files st =
     map (\<lambda>f. fst (splitext f))
       (filter (\<lambda>f. endswith f ''.json'' \<and> f \<noteq> last_json_data @ ''.json'')
          (map fst (cwd st)))"

text \<open>
  \<open>save_configuration(entries, source)\<close>, where \<open>entries\<close> are the four fields of
  the form. The name is asked from the user when the Save button calls; opening the file
  for writing can fail, and every failure inside the \<open>try\<close> ends in an error dialog,
  whose message ends with the text of the exception, left out here.
\<close>

definition save_configuration :: "string option \<Rightarrow> world \<Rightarrow> world" where
  "save_configuration source st =
     (let config_name =
            (if source = Some ''button'' then user_askstring st else Some last_json_data)
      in case config_name of
           None \<Rightarrow>
             emit (ShowWarning ''Invalid Name''
                     ''Please enter a valid name for the configuration.'') st
         | Some name \<Rightarrow>
             (if name = [] then
                emit (ShowWarning ''Invalid Name''
                        ''Please enter a valid name for the configuration.'') st
              else
                (let config_filename = name @ ''.json'';
                     config_data =
                       [(Entries_value WIDTH_ENTRY, width_entry st),
                        (Entries_value HEIGHT_ENTRY, height_entry st),
                        (Entries_value BORDER_SIZE_HEIGHT_ENTRY, border_size_height_entry st),
                        (Entries_value POSTFIX_ENTRY, postfix_entry st)]
                 in if write_ok st config_filename then
                      (let st1 = st\<lparr>cwd := AList.update config_filename
                                             (JsonObject config_data) (cwd st)\<rparr>
                       in st1\<lparr>load_combo_values := get_all_config_files st1\<rparr>)
                    else emit (ShowError ''Error'' ''Failed to save configuration: '') st)))"

text \<open>\<open>config.get(key, "")\<close>\<close>

definition dict_get :: "(string \<times> string) list \<Rightarrow> string \<Rightarrow> string \<Rightarrow> string" where
  "dict_get config key dflt = (case map_of config key of None \<Rightarrow> dflt | Some v \<Rightarrow> v)"

text \<open>
  \<open>load_selected_configuration(event)\<close>: \<open>event\<close> is the selection event of the
  dropdown, or \<open>None\<close> at start-up. Only a missing file is caught.
\<close>

definition load_selected_configuration :: "bool \<Rightarrow> world \<Rightarrow> (error + unit) \<times> world" where
  "load_selected_configuration event st =
     (let selected_file =
            (if event then load_combo_text st @ ''.json'' else last_json_data @ ''.json'')
      in if selected_file \<noteq> [] then
           (case map_of (cwd st) selected_file of
              None \<Rightarrow> (Inr (), st)
            | Some NotJson \<Rightarrow> (Inl JSONDecodeError, st)
            | Some (JsonObject config) \<Rightarrow>
                (Inr (),
                 (emit (Print config) st)
                   \<lparr>width_entry := dict_get config (Entries_value WIDTH_ENTRY) [],
                    height_entry := dict_get config (Entries_value HEIGHT_ENTRY) [],
                    border_size_height_entry :=
                      dict_get config (Entries_value BORDER_SIZE_HEIGHT_ENTRY) [],
                    postfix_entry := dict_get config (Entries_value POSTFIX_ENTRY) []\<rparr>))
         else (Inr (), st))"

section \<open>process_images\<close>

text \<open>
  Python's \<open>int(s)\<close> on a string: white space around, an optional sign, then decimal
  digits, with single underscores allowed between digits. The white space it strips is
  tab to carriage return and the space, and of the characters beyond ASCII the Unicode
  spaces, here the next-line character and the no-break space; the separators 28 to 31
  are not stripped. More than 4300 digits are refused. \<open>None\<close> is the
  \<open>ValueError\<close>.
\<close>

definition is_space :: "char \<Rightarrow> bool" where
  "is_space c =
     (let n = (of_char c :: nat) in (9 \<le> n \<and> n \<le> 13) \<or> n = 32 \<or> n = 0x85 \<or> n = 0xA0)"

definition is_digit :: "char \<Rightarrow> bool" where
  "is_digit c = (let n = (of_char c :: nat) in 48 \<le> n \<and> n \<le> 57)"

definition strip :: "string \<Rightarrow> string" where
  "strip s = rev (dropWhile is_space (rev (dropWhile is_space s)))"

fun digits_ok :: "string \<Rightarrow> bool" where
  "digits_ok [] = False"
| "digits_ok [c] = is_digit c"
| "digits_ok (c # d # cs) =
     (is_digit c \<and> (if d = CHR ''_'' then digits_ok cs else digits_ok (d # cs)))"

definition digits_value :: "string \<Rightarrow> int" where
  "digits_value ds =
     foldl (\<lambda>a c. 10 * a + (int (of_char c) - 48)) 0 (filter (\<lambda>c. c \<noteq> CHR ''_'') ds)"

definition digits_int :: "string \<Rightarrow> int option" where
  "digits_int ds =
     (if digits_ok ds \<and> length (filter is_digit ds) \<le> 4300 then Some (digits_value ds)
      else None)"

definition py_int :: "string \<Rightarrow> int option" where
  "py_int s =
     (case strip s of
        [] \<Rightarrow> None
      | c # cs \<Rightarrow>
          (if c = CHR ''-'' then map_option uminus (digits_int cs)
           else if c = CHR ''+'' then digits_int cs
           else digits_int (c # cs)))"

text \<open>The \<open>for\<close> loop of lines 214 to 217; an exception ends it.\<close>

fun process_loop ::
  "string list \<Rightarrow> string \<Rightarrow> int \<Rightarrow> int \<Rightarrow> int \<Rightarrow> string \<Rightarrow> world \<Rightarrow> (error + unit) \<times> world"
where
  "process_loop [] output_directory output_width output_height height_border_size postfix st =
     (Inr (), st)"
| "process_loop (input_image_path # rest) output_directory output_width output_height
       height_border_size postfix st =
     (let filename = basename input_image_path;
          output_image_path = join output_directory filename
      in case add_white_border input_image_path output_image_path output_width output_height
                height_border_size postfix st of
           (Inl e, st') \<Rightarrow> (Inl e, st')
         | (Inr _, st') \<Rightarrow>
             process_loop rest output_directory output_width output_height
               height_border_size postfix st')"

definition invalid_input :: "string \<Rightarrow> world \<Rightarrow> (error + unit) \<times> world" where
  "invalid_input msg st = (Inr (), emit (ShowError ''Invalid Input'' msg) st)"

definition run_batch ::
  "int \<Rightarrow> int \<Rightarrow> int \<Rightarrow> string \<Rightarrow> world \<Rightarrow> (error + unit) \<times> world"
where
  "run_batch output_width output_height height_border_size postfix st0 =
     (let st1 = save_configuration None st0;
          input_file_paths = user_openfilenames st1
      in if input_file_paths = [] then (Inr (), st1)
         else
           (let output_directory = user_directory st1
            in if output_directory = [] then (Inr (), st1)
               else
                 (let st2 = (if dir_exists st1 output_directory then st1
                             else st1\<lparr>dirs := dirs st1 @ [output_directory]\<rparr>)
                  in case process_loop input_file_paths output_directory output_width
                            output_height height_border_size postfix st2 of
                       (Inl e, st3) \<Rightarrow> (Inl e, st3)
                     | (Inr _, st3) \<Rightarrow>
                         (Inr (),
                          emit (Popen [''explorer'',
                                       map (\<lambda>c. if c = CHR ''/'' then CHR 0x5C else c)
                                         output_directory])
                            (emit (ShowInfo ''Process Complete'' ''Process Complete'') st3)))))"

text \<open>
  \<open>process_images(entries)\<close>: lines 185 to 199 read the four fields, the rest is
  \<open>run_batch\<close>.
\<close>

definition process_images :: "world \<Rightarrow> (error + unit) \<times> world" where
  "process_images st =
     (case py_int (width_entry st) of
        None \<Rightarrow> invalid_input ''Please enter valid values.'' st
      | Some output_width \<Rightarrow>
          (case py_int (height_entry st) of
             None \<Rightarrow> invalid_input ''Please enter valid values.'' st
           | Some output_height \<Rightarrow>
               (case py_int (border_size_height_entry st) of
                  None \<Rightarrow> invalid_input ''Please enter valid values.'' st
                | Some height_border_size \<Rightarrow>
                    (let postfix = postfix_entry st
                     in if postfix = [] then
                          invalid_input
                            ''Add a postfix to avoid modifying the original photo.'' st
                        else run_batch output_width output_height height_border_size
                               postfix st))))"

section \<open>Example inputs\<close>

definition portrait_image :: image where
  "portrait_image =
     \<lparr>im_width = 1000, im_height = 2000, im_format = Some ''JPEG'',
      im_dpi = Some (300, 300), im_exif = []\<rparr>"

text \<open>
  A form filled in with 800, 1600, 40 and \<open>_b\<close>, over a disk with the given images and
  the directories \<open>in\<close> and \<open>out\<close>.
\<close>

definition desk :: "(string \<times> image) list \<Rightarrow> string \<Rightarrow> world" where
  "desk files answer =
     \<lparr>width_entry = ''800'', height_entry = ''1600'', border_size_height_entry = ''40'',
      postfix_entry = ''_b'', load_combo_text = [], load_combo_values = [],
      cwd = [], write_ok = (\<lambda>_. True), image_files = files, dirs = [''in'', ''out''],
      EXTENSION = map_of [(''.jpg'', ''JPEG''), (''.png'', ''PNG'')],
      SAVE = (\<lambda>f. f \<in> set [''JPEG'', ''PNG'']),
      user_askquestion = (\<lambda>_. answer), user_askstring = Some ''mine'',
      user_openfilenames = map fst files, user_directory = ''out'', trace = []\<rparr>"

definition square_image :: image where
  "square_image =
     \<lparr>im_width = 100, im_height = 100, im_format = Some ''PNG'',
      im_dpi = None, im_exif = []\<rparr>"

text \<open>A JPEG photograph from a camera held upright, as Pillow reads it.\<close>

definition camera_image :: image where
  "camera_image =
     \<lparr>im_width = 2000, im_height = 1000, im_format = Some ''JPEG'',
      im_dpi = Some (72, 72), im_exif = [(0x0112, 6)]\<rparr>"

text \<open>Forms as a user can fill them in: with signs, and with a slip of the finger.\<close>

definition careless_form :: world where
  "careless_form =
     (desk [] ''no'')\<lparr>width_entry := ''-5'', height_entry := ''0'',
                        border_size_height_entry := ''-1''\<rparr>"

definition mistyped_form :: world where
  "mistyped_form = (desk [] ''no'')\<lparr>width_entry := ''8oo''\<rparr>"

section \<open>Properties of the floats\<close>

lemma round_half_even_of_int: "round_half_even (of_int m) = m"
  by (simp add: round_half_even_def)

lemma pow2_pos: "0 < pow2 k"
  by (simp add: pow2_def)

text \<open>The exponent found is below every power of two that is above the number.\<close>

lemma float_exponent_less:
  assumes "x \<noteq> 0" and "\<bar>x\<bar> < pow2 n"
  shows "float_exponent x < n"
proof (cases "1 \<le> \<bar>x\<bar>")
  case True
  with assms(2) have "1 < pow2 n" by simp
  moreover have "pow2 n \<le> 1" if "n \<le> 0"
  proof (cases "n = 0")
    case True
    then show ?thesis by (simp add: pow2_def)
  next
    case False
    with that have "n < 0" by simp
    moreover have "(1::rat) \<le> 2 ^ nat (- n)" by (rule one_le_power) simp
    ultimately show ?thesis by (simp add: pow2_def field_simps)
  qed
  ultimately have n: "0 < n" by (cases "0 < n") auto
  have "of_int \<lfloor>\<bar>x\<bar>\<rfloor> \<le> \<bar>x\<bar>" by simp
  also have "\<dots> < 2 ^ nat n" using assms(2) n by (simp add: pow2_def)
  finally have "\<lfloor>\<bar>x\<bar>\<rfloor> < 2 ^ nat n"
    by (metis of_int_less_iff of_int_numeral of_int_power)
  then have "bitlen \<lfloor>\<bar>x\<bar>\<rfloor> \<le> n"
    using bitlen_le_iff_power [of "\<lfloor>\<bar>x\<bar>\<rfloor>" n] n by simp
  with True show ?thesis by (simp add: float_exponent_def)
next
  case False
  then have small: "\<bar>x\<bar> < 1" by simp
  have xpos: "0 < \<bar>x\<bar>" using assms(1) by simp
  let ?c = "\<lceil>1 / \<bar>x\<bar>\<rceil> - 1"
  show ?thesis
  proof (cases "0 < n")
    case True
    have "0 \<le> bitlen ?c" by (rule bitlen_nonneg)
    with True small show ?thesis by (simp add: float_exponent_def)
  next
    case False
    define m where "m = nat (- n)"
    from False have pn: "pow2 n = 1 / 2 ^ m" 
      by (cases "n = 0") (simp_all add: pow2_def m_def)
    from assms(2) xpos have "2 ^ m < 1 / \<bar>x\<bar>"
      unfolding pn by (simp add: field_simps)
    then have "(of_int (2 ^ m) :: rat) < 1 / \<bar>x\<bar>" by simp
    then have "2 ^ m < \<lceil>1 / \<bar>x\<bar>\<rceil>"
      by (simp only: less_ceiling_iff)
    then have ge: "2 ^ m \<le> ?c" by simp
    have "nat (int m + 1) - 1 = m" by simp
    with ge have "int m + 1 \<le> bitlen ?c"
      by (simp only: bitlen_ge_iff_power) simp
    then have "- bitlen ?c < n" using False by (simp add: m_def)
    with small show ?thesis by (simp add: float_exponent_def)
  qed
qed

text \<open>
  A number with at most 53 significant bits above \<open>2 ^ -1074\<close> is a double, and
  rounding leaves it as it is.
\<close>

lemma float_round_dyadic:
  assumes int: "x * 2 ^ k \<in> \<int>" and small: "\<bar>x\<bar> * 2 ^ k < 2 ^ 53" and k: "k \<le> 1074"
  shows "float_round x = x"
proof (cases "x = 0")
  case True
  then show ?thesis by (simp add: float_round_def)
next
  case False
  from int obtain m where m: "x * 2 ^ k = of_int m" by (auto elim: Ints_cases)
  have "\<bar>x\<bar> < pow2 (53 - int k)"
  proof (cases "k \<le> 53")
    case True
    then have "pow2 (53 - int k) = 2 ^ (53 - k)"
      by (simp add: pow2_def nat_diff_distrib)
    moreover have "(2::rat) ^ 53 = 2 ^ (53 - k) * 2 ^ k"
      using True by (simp only: le_add_diff_inverse2 flip: power_add)
    moreover from this small have "\<bar>x\<bar> * 2 ^ k < 2 ^ (53 - k) * 2 ^ k"
      by (simp only:)
    then have "\<bar>x\<bar> < 2 ^ (53 - k)"
      by (rule mult_right_less_imp_less) simp
    ultimately show ?thesis by (simp only:)
  next
    case False
    then have "pow2 (53 - int k) = 1 / 2 ^ (k - 53)"
      by (simp add: pow2_def nat_diff_distrib)
    moreover have eq: "(2::rat) ^ k = 2 ^ 53 * 2 ^ (k - 53)"
      using False by (simp only: le_add_diff_inverse not_le less_imp_le flip: power_add)
    have "\<bar>x\<bar> * 2 ^ (k - 53) * 2 ^ 53 = \<bar>x\<bar> * 2 ^ k"
      unfolding eq by (simp only: mult_ac)
    with small have "\<bar>x\<bar> * 2 ^ (k - 53) * 2 ^ 53 < 1 * 2 ^ 53"
      by (simp only: mult_1)
    then have "\<bar>x\<bar> * 2 ^ (k - 53) < 1"
      by (rule mult_right_less_imp_less) simp
    then have "\<bar>x\<bar> < 1 / 2 ^ (k - 53)"
      by (simp add: field_simps)
    ultimately show ?thesis by (simp only:)
  qed
  from float_exponent_less [OF False this]
  have e: "float_exponent x \<le> 52 - int k" by simp
  define e' where "e' = max (float_exponent x) (- 1022)"
  have e': "e' \<le> 52 - int k" using e k by (simp add: e'_def)
  define j where "j = nat (52 - e')"
  have jk: "k \<le> j" using e' by (simp add: j_def)
  have ulp: "pow2 (e' - 52) = 1 / 2 ^ j"
  proof (cases "e' = 52")
    case True
    then show ?thesis by (simp add: pow2_def j_def)
  next
    case False
    with e' have "e' - 52 < 0" by simp
    then show ?thesis by (simp add: pow2_def j_def)
  qed
  have "x / (1 / 2 ^ j) = x * 2 ^ k * 2 ^ (j - k)"
    using jk by (simp flip: power_add add: mult.assoc)
  also have "\<dots> = of_int (m * 2 ^ (j - k))"
    by (simp add: m)
  finally have q: "x / (1 / 2 ^ j) = of_int (m * 2 ^ (j - k))" .
  have "float_round x = of_int (round_half_even (x / (1 / 2 ^ j))) * (1 / 2 ^ j)"
    using False by (simp add: float_round_def Let_def flip: e'_def add: ulp)
  also have "\<dots> = x / (1 / 2 ^ j) * (1 / 2 ^ j)"
    by (simp only: q round_half_even_of_int)
  also have "\<dots> = x"
    by simp
  finally show ?thesis .
qed

lemma float_round_int:
  assumes "x \<in> \<int>" and "\<bar>x\<bar> < 2 ^ 53"
  shows "float_round x = x"
  using float_round_dyadic [of x 0] assms by simp

section \<open>Properties of add_white_border\<close>

lemmas run_defs =
  add_white_border_def border_image_def Image_open_def Image_copy_def oriented_def
  exif_rotation_def Image_rotate_def resize_dims_def render_def Image_resize_def
  ImageOps_expand_def Image_save_def int_trunc_def splitext_def rfind_def is_sep_def
  lower_def lower_char_def emit_def crop_question_def Let_def desk_def portrait_image_def
  true_div_def py_float_def float_sub_def float_half_def is_inf_def c_int_def
  dirname_def dir_exists_def rstrip_seps_def needs_dpi_def float_round_int

text \<open>
  The image the function works on is the copy, rotated or not: it has no format, the
  density of the source, and the sides of the source in one order or the other.
\<close>

lemma oriented_format: "im_format (oriented (Image_copy img)) = None"
  by (simp add: oriented_def Image_copy_def Image_rotate_def split: option.splits)

lemma oriented_dpi: "im_dpi (oriented (Image_copy img)) = im_dpi img"
  by (simp add: oriented_def Image_copy_def Image_rotate_def split: option.splits)

lemma oriented_square:
  assumes "im_width img = s" and "im_height img = s"
  shows "im_width (oriented (Image_copy img)) = s \<and> im_height (oriented (Image_copy img)) = s"
  using assms
  by (simp add: oriented_def Image_copy_def Image_rotate_def split: option.splits)

lemma Image_save_cases:
  "Image_save img p fmt q dpi st = (r, st') \<Longrightarrow>
     (\<exists>e. r = Inl e \<and> trace st' = trace st) \<or>
     (\<exists>f. r = Inr () \<and>
        st' = emit (Saved p fmt q dpi)
                (st\<lparr>image_files :=
                      AList.update p
                        \<lparr>im_width = im_width img, im_height = im_height img,
                         im_format = Some f, im_dpi = dpi, im_exif = []\<rparr>
                        (image_files st)\<rparr>))"
  by (auto simp: Image_save_def split: option.splits if_splits)

text \<open>
  The last four steps either raise, with no dialog and nothing saved, or save an image
  of the target size and return \<open>True\<close>.
\<close>

lemma render_cases:
  assumes "render img p W H b rw rh cb st = (r, st')"
  shows "(\<exists>e. r = Inl e \<and> trace st' = trace st) \<or>
     (\<exists>f. r = Inr (PyBool True) \<and>
        st' = emit (Saved p (im_format img) 100 (im_dpi img))
                (st\<lparr>image_files :=
                      AList.update p
                        \<lparr>im_width = W, im_height = H,
                         im_format = Some f, im_dpi = im_dpi img, im_exif = []\<rparr>
                        (image_files st)\<rparr>))"
  using assms
  apply (simp add: render_def split: sum.splits prod.splits if_splits)
  apply (auto simp: Image_resize_def dest!: Image_save_cases split: if_splits)
  done

text \<open>Their only effect on the trace is the file saved.\<close>

lemma render_trace:
  "trace (snd (render img p W H b rw rh cb st)) = trace st \<or>
   trace (snd (render img p W H b rw rh cb st)) =
     trace st @ [Saved p (im_format img) 100 (im_dpi img)]"
proof -
  obtain r st' where eq: "render img p W H b rw rh cb st = (r, st')"
    by (cases "render img p W H b rw rh cb st")
  from render_cases [OF eq]
  have "trace st' = trace st \<or> trace st' = trace st @ [Saved p (im_format img) 100 (im_dpi img)]"
    by (elim disjE exE conjE) (simp_all add: emit_def)
  then show ?thesis by (simp add: eq)
qed

lemma render_never_False:
  assumes "fst (render img p W H b rw rh cb st) = Inr v"
  shows "v = PyBool True"
proof -
  obtain r st' where eq: "render img p W H b rw rh cb st = (r, st')"
    by (cases "render img p W H b rw rh cb st")
  with assms have "r = Inr v" by simp
  with render_cases [OF eq] show ?thesis
    by (elim disjE exE conjE) simp_all
qed

text \<open>The function, once the image is open and the sizes are computed.\<close>

lemma add_white_border_unfold:
  assumes "Image_open st ip = Inr img"
    and "resize_dims (im_width (oriented (Image_copy img)))
           (im_height (oriented (Image_copy img))) W H b = Inr (rw, rh, cb)"
  shows "add_white_border ip op W H b pf st =
     (if cb < 0 then
        (if user_askquestion st (crop_question (fst (splitext op))) = ''no''
         then (Inr PyNone, emit (AskQuestion ''Proceed?'' (crop_question (fst (splitext op)))) st)
         else render (oriented (Image_copy img)) (fst (splitext op) @ pf @ snd (splitext op))
                W H b rw rh cb
                (emit (AskQuestion ''Proceed?'' (crop_question (fst (splitext op)))) st))
      else render (oriented (Image_copy img)) (fst (splitext op) @ pf @ snd (splitext op))
             W H b rw rh cb st)"
  using assms by (simp add: add_white_border_def border_image_def Let_def)

text \<open>
  When the run completes: the image opens, the crop is not declined, the inner size and
  the target size are at least one pixel each way, the border is finite and the padded
  size not negative, every size fits a C integer, Pillow knows the extension of the
  output path and can write its format, the directory of the output path exists, and
  the source has a density or the format can do without.
\<close>

lemma render_completes:
  assumes "1 \<le> int_trunc rw" "1 \<le> int_trunc rh" "1 \<le> W" "1 \<le> H"
    and "c_int (int_trunc rw)" "c_int (int_trunc rh)" "c_int W" "c_int H"
    and "\<not> is_inf cb"
    and "if im_height img > im_width img
         then 0 \<le> 2 * int_trunc cb + int_trunc rw \<and> 0 \<le> 2 * b + int_trunc rh \<and>
              c_int (2 * int_trunc cb + int_trunc rw) \<and> c_int (2 * b + int_trunc rh)
         else 0 \<le> 2 * b + int_trunc rw \<and> 0 \<le> 2 * int_trunc cb + int_trunc rh \<and>
              c_int (2 * b + int_trunc rw) \<and> c_int (2 * int_trunc cb + int_trunc rh)"
    and "im_format img = None"
    and "EXTENSION st (lower (snd (splitext p))) = Some f" "SAVE st f"
    and "dir_exists st (dirname p)"
    and "im_dpi img \<noteq> None \<or> \<not> needs_dpi f"
  shows "fst (render img p W H b rw rh cb st) = Inr (PyBool True)"
  using assms
  by (auto simp add: render_def Image_resize_def ImageOps_expand_def Image_save_def Let_def
        split: if_splits)

lemma add_white_border_completes:
  assumes opened: "Image_open st ip = Inr img"
    and dims: "resize_dims (im_width (oriented (Image_copy img)))
           (im_height (oriented (Image_copy img))) W H b = Inr (rw, rh, cb)"
    and go: "\<not> (cb < 0 \<and> user_askquestion st (crop_question (fst (splitext op))) = ''no'')"
    and sizes: "1 \<le> int_trunc rw" "1 \<le> int_trunc rh" "1 \<le> W" "1 \<le> H"
      "c_int (int_trunc rw)" "c_int (int_trunc rh)" "c_int W" "c_int H"
      "\<not> is_inf cb"
    and room: "if im_height (oriented (Image_copy img)) > im_width (oriented (Image_copy img))
         then 0 \<le> 2 * int_trunc cb + int_trunc rw \<and> 0 \<le> 2 * b + int_trunc rh \<and>
              c_int (2 * int_trunc cb + int_trunc rw) \<and> c_int (2 * b + int_trunc rh)
         else 0 \<le> 2 * b + int_trunc rw \<and> 0 \<le> 2 * int_trunc cb + int_trunc rh \<and>
              c_int (2 * b + int_trunc rw) \<and> c_int (2 * int_trunc cb + int_trunc rh)"
    and known: "EXTENSION st (lower (snd (splitext (fst (splitext op) @ pf @ snd (splitext op)))))
                  = Some f" "SAVE st f"
    and there: "dir_exists st (dirname (fst (splitext op) @ pf @ snd (splitext op)))"
    and density: "im_dpi img \<noteq> None \<or> \<not> needs_dpi f"
  shows "fst (add_white_border ip op W H b pf st) = Inr (PyBool True)"
proof -
  let ?img = "oriented (Image_copy img)"
  let ?p = "fst (splitext op) @ pf @ snd (splitext op)"
  from go obtain st1 where
    run: "add_white_border ip op W H b pf st = render ?img ?p W H b rw rh cb st1"
    and same: "EXTENSION st1 = EXTENSION st" "SAVE st1 = SAVE st" "dirs st1 = dirs st"
    by (cases "cb < 0") (simp_all add: add_white_border_unfold [OF opened dims] emit_def)
  from known same have k: "EXTENSION st1 (lower (snd (splitext ?p))) = Some f" "SAVE st1 f"
    by simp_all
  from there same have d: "dir_exists st1 (dirname ?p)"
    by (simp add: dir_exists_def)
  from density have dens: "im_dpi ?img \<noteq> None \<or> \<not> needs_dpi f"
    by (simp add: oriented_dpi)
  from render_completes [OF sizes room oriented_format k d dens] show ?thesis
    by (simp add: run)
qed

text \<open>
  C1. Whenever \<open>add_white_border\<close> completes (it returns \<open>True\<close>: no exception, and
  no crop declined), the file it has written at the output path, with the postfix before
  the extension, holds an image of exactly the target width and the target height,
  whatever the intermediate resize and border came to.
\<close>

theorem output_has_target_size:
  assumes "add_white_border ip op W H b pf st = (Inr (PyBool True), st')"
  shows "\<exists>img. map_of (image_files st') (fst (splitext op) @ pf @ snd (splitext op)) = Some img
            \<and> im_width img = W \<and> im_height img = H"
  using assms
  apply (simp add: add_white_border_def border_image_def Let_def
           split: sum.splits prod.splits if_splits)
  apply (auto dest!: render_cases simp: emit_def update_Some_unfold)
  done

theorem output_has_target_size_witness:
  "fst (add_white_border ''in/a.jpg'' ''out/a.jpg'' 800 1600 40 ''_b''
          (desk [(''in/a.jpg'', portrait_image)] ''yes'')) = Inr (PyBool True) \<and>
   (\<exists>img. map_of (image_files (snd (add_white_border ''in/a.jpg'' ''out/a.jpg'' 800 1600 40
          ''_b'' (desk [(''in/a.jpg'', portrait_image)] ''yes'')))) ''out/a_b.jpg'' = Some img
      \<and> im_width img = 800 \<and> im_height img = 1600)"
proof -
  let ?r = "add_white_border ''in/a.jpg'' ''out/a.jpg'' 800 1600 40 ''_b''
          (desk [(''in/a.jpg'', portrait_image)] ''yes'')"
  have ok: "fst ?r = Inr (PyBool True)"
    by (simp add: run_defs)
  then have "?r = (Inr (PyBool True), snd ?r)"
    by (metis prod.collapse)
  from output_has_target_size [OF this] have
    "\<exists>img. map_of (image_files (snd ?r))
        (fst (splitext ''out/a.jpg'') @ ''_b'' @ snd (splitext ''out/a.jpg'')) = Some img
          \<and> im_width img = 800 \<and> im_height img = 1600" .
  moreover have
    "fst (splitext ''out/a.jpg'') @ ''_b'' @ snd (splitext ''out/a.jpg'') = ''out/a_b.jpg''"
    by (simp add: splitext_def rfind_def is_sep_def)
  ultimately show ?thesis using ok by simp
qed


text \<open>A bound on an integer is a bound on the float that holds it.\<close>

lemma abs_of_int_less_power:
  assumes "\<bar>n\<bar> < 2 ^ k"
  shows "\<bar>of_int n :: rat\<bar> < 2 ^ k"
proof -
  from assms have "(of_int \<bar>n\<bar> :: rat) < of_int (2 ^ k)"
    by (simp only: of_int_less_iff)
  then show ?thesis by simp
qed

text \<open>A square source and a square target, of sizes far beyond what an image can have.\<close>

lemma resize_dims_square:
  assumes "0 < s" and "0 \<le> b" and "b < 2 ^ 51" and "\<bar>W\<bar> < 2 ^ 52"
  shows "resize_dims s s W W b = Inr (of_int (W - 2 * b), of_int (W - 2 * b), of_int b)"
proof -
  have "\<bar>W - 2 * b\<bar> < 2 ^ 53" using assms(2-4) by simp
  then have inner: "\<bar>of_int (W - 2 * b) :: rat\<bar> < 2 ^ 53"
    by (rule abs_of_int_less_power)
  have q: "(of_int ((W - b * 2) * s) :: rat) / of_int s = of_int (W - 2 * b)"
    using assms(1) by (simp add: mult.commute)
  have div: "true_div ((W - b * 2) * s) s = Inr (of_int (W - 2 * b))"
    using assms(1) inner
    by (simp only: true_div_def q Let_def float_round_int [OF Ints_of_int inner])
       (simp add: is_inf_def)
  have "\<bar>W\<bar> < 2 ^ 53" using assms(4) by simp
  then have wb: "\<bar>of_int W :: rat\<bar> < 2 ^ 53"
    by (rule abs_of_int_less_power)
  have conv: "py_float W = Inr (of_int W)"
    using wb by (simp only: py_float_def Let_def float_round_int [OF Ints_of_int wb])
       (simp add: is_inf_def)
  have "\<bar>2 * b\<bar> < 2 ^ 53" using assms(2,3) by simp
  then have twice: "\<bar>of_int (2 * b) :: rat\<bar> < 2 ^ 53"
    by (rule abs_of_int_less_power)
  have sub: "float_sub (of_int W) (of_int (W - 2 * b)) = of_int (2 * b)"
  proof -
    have "(of_int W :: rat) - of_int (W - 2 * b) = of_int (2 * b)" by simp
    then show ?thesis
      by (simp only: float_sub_def float_round_int [OF Ints_of_int twice])
  qed
  have "\<bar>b\<bar> < 2 ^ 53" using assms(2,3) by simp
  then have once: "\<bar>of_int b :: rat\<bar> < 2 ^ 53"
    by (rule abs_of_int_less_power)
  have half: "float_half (of_int (2 * b)) = of_int b"
  proof -
    have "(of_int (2 * b) :: rat) / 2 = of_int b" by simp
    moreover have "\<not> is_inf (of_int (2 * b))"
      using twice by (simp add: is_inf_def)
    ultimately show ?thesis
      by (simp only: float_half_def float_round_int [OF Ints_of_int once] if_False)
  qed
  have "resize_dims s s W W b =
      (case true_div ((W - b * 2) * s) s of
         Inl e \<Rightarrow> Inl e
       | Inr rh \<Rightarrow>
           (case py_float W of
              Inl e \<Rightarrow> Inl e
            | Inr h \<Rightarrow> Inr (of_int (W - b * 2), rh, float_half (float_sub h rh))))"
    by (simp add: resize_dims_def Let_def)
  also have "\<dots> = Inr (of_int (W - b * 2), of_int (W - 2 * b),
                      float_half (float_sub (of_int W) (of_int (W - 2 * b))))"
    by (simp only: div conv sum.case)
  also have "\<dots> = Inr (of_int (W - 2 * b), of_int (W - 2 * b), of_int b)"
    by (simp only: sub half mult.commute [of b 2])
  finally show ?thesis .
qed

lemma int_trunc_of_int: "int_trunc (of_int n) = n"
  by (simp add: int_trunc_def)

text \<open>
  C3. For a square source, a square target and a border of zero or more, of sizes that
  an image can have (any below \<open>2 ^ 51\<close> will do), the derived border is the configured
  border exactly, so that both axes are padded by it, and the crop question is not
  asked: the run goes straight to the resize, and does nothing to the trace but, at
  most, note the file saved.
\<close>

theorem square_border_exact:
  assumes opened: "Image_open st ip = Inr img"
    and square: "im_width img = s" "im_height img = s" "0 < s"
    and border: "0 \<le> b" "b < 2 ^ 51"
    and target: "\<bar>W\<bar> < 2 ^ 52"
  shows "resize_dims (im_width (oriented (Image_copy img)))
           (im_height (oriented (Image_copy img))) W W b
           = Inr (of_int (W - 2 * b), of_int (W - 2 * b), of_int b) \<and>
         int_trunc (of_int b) = b \<and>
         add_white_border ip op W W b pf st =
           render (oriented (Image_copy img)) (fst (splitext op) @ pf @ snd (splitext op))
             W W b (of_int (W - 2 * b)) (of_int (W - 2 * b)) (of_int b) st \<and>
         (trace (snd (add_white_border ip op W W b pf st)) = trace st \<or>
          trace (snd (add_white_border ip op W W b pf st)) =
            trace st @ [Saved (fst (splitext op) @ pf @ snd (splitext op)) None 100 (im_dpi img)])"
proof -
  let ?img = "oriented (Image_copy img)"
  let ?p = "fst (splitext op) @ pf @ snd (splitext op)"
  let ?n = "of_int (W - 2 * b) :: rat"
  have dims: "resize_dims (im_width ?img) (im_height ?img) W W b = Inr (?n, ?n, of_int b)"
    using oriented_square [OF square(1,2)] resize_dims_square [OF square(3) border target]
    by simp
  have run: "add_white_border ip op W W b pf st = render ?img ?p W W b ?n ?n (of_int b) st"
    using border(1) add_white_border_unfold [OF opened dims, of op pf] by simp
  have quiet: "trace (snd (add_white_border ip op W W b pf st)) = trace st \<or>
             trace (snd (add_white_border ip op W W b pf st)) =
               trace st @ [Saved ?p None 100 (im_dpi img)]"
    using render_trace [of ?img ?p W W b ?n ?n "of_int b" st]
    by (simp add: run oriented_format oriented_dpi)
  show ?thesis
    using dims run quiet by (simp add: int_trunc_of_int)
qed


theorem square_border_exact_witness:
  "Image_open (desk [(''in/s.png'', square_image)] ''no'') ''in/s.png'' = Inr square_image \<and>
   im_width square_image = 100 \<and> im_height square_image = 100 \<and> (0::int) < 100 \<and>
   (0::int) \<le> 10 \<and> (10::int) < 2 ^ 51 \<and> \<bar>200::int\<bar> < 2 ^ 52 \<and>
   resize_dims (im_width (oriented (Image_copy square_image)))
       (im_height (oriented (Image_copy square_image))) 200 200 10 = Inr (180, 180, 10) \<and>
   (trace (snd (add_white_border ''in/s.png'' ''out/s.png'' 200 200 10 ''_b''
                  (desk [(''in/s.png'', square_image)] ''no''))) = [] \<or>
    trace (snd (add_white_border ''in/s.png'' ''out/s.png'' 200 200 10 ''_b''
                  (desk [(''in/s.png'', square_image)] ''no''))) =
      [Saved ''out/s_b.png'' None 100 None])"
proof -
  let ?w = "desk [(''in/s.png'', square_image)] ''no''"
  have o: "Image_open ?w ''in/s.png'' = Inr square_image"
    by (simp add: Image_open_def desk_def)
  have w: "im_width square_image = 100" and h: "im_height square_image = 100"
    by (simp_all add: square_image_def)
  have s: "(0::int) < 100" and b: "(0::int) \<le> 10" "(10::int) < 2 ^ 51"
    and t: "\<bar>200::int\<bar> < 2 ^ 52"
    by simp_all
  have sp: "splitext ''out/s.png'' = (''out/s'', ''.png'')"
    by (simp add: splitext_def rfind_def is_sep_def)
  have tr: "trace ?w = []" and dpi: "im_dpi square_image = None"
    by (simp_all add: desk_def square_image_def)
  note th = square_border_exact [OF o w h s b t, of "''out/s.png''" "''_b''"]
  from th have dims: "resize_dims (im_width (oriented (Image_copy square_image)))
       (im_height (oriented (Image_copy square_image))) 200 200 10
         = Inr (of_int (200 - 2 * 10), of_int (200 - 2 * 10), of_int 10)"
    by blast
  from th have "trace (snd (add_white_border ''in/s.png'' ''out/s.png'' 200 200 10 ''_b'' ?w))
         = trace ?w \<or>
       trace (snd (add_white_border ''in/s.png'' ''out/s.png'' 200 200 10 ''_b'' ?w)) =
         trace ?w @ [Saved (fst (splitext ''out/s.png'') @ ''_b'' @ snd (splitext ''out/s.png''))
                       None 100 (im_dpi square_image)]"
    by blast
  then have "trace (snd (add_white_border ''in/s.png'' ''out/s.png'' 200 200 10 ''_b'' ?w)) = [] \<or>
       trace (snd (add_white_border ''in/s.png'' ''out/s.png'' 200 200 10 ''_b'' ?w)) =
         [Saved ''out/s_b.png'' None 100 None]"
    by (simp add: sp tr dpi)
  moreover from dims have "resize_dims (im_width (oriented (Image_copy square_image)))
       (im_height (oriented (Image_copy square_image))) 200 200 10 = Inr (180, 180, 10)"
    by simp
  ultimately show ?thesis using o w h by simp
qed

text \<open>
  C4. When the derived border is negative, the first thing \<open>add_white_border\<close> does
  to the world is to ask the user whether to proceed. If the answer is no, it returns
  with nothing but that question done: no file is written, and the loop of
  \<open>process_images\<close> goes on with the remaining files.
\<close>

theorem negative_border_asks:
  assumes opened: "Image_open st ip = Inr img"
    and dims: "resize_dims (im_width (oriented (Image_copy img)))
           (im_height (oriented (Image_copy img))) W H b = Inr (rw, rh, cb)"
    and neg: "cb < 0"
    and out: "op = join outdir (basename ip)"
    and question: "q = crop_question (fst (splitext op))"
  shows "(\<exists>rest. trace (snd (add_white_border ip op W H b pf st)) =
                  trace st @ AskQuestion ''Proceed?'' q # rest) \<and>
         (user_askquestion st q = ''no'' \<longrightarrow>
            add_white_border ip op W H b pf st = (Inr PyNone, emit (AskQuestion ''Proceed?'' q) st) \<and>
            image_files (snd (add_white_border ip op W H b pf st)) = image_files st \<and>
            process_loop (ip # ps) outdir W H b pf st =
              process_loop ps outdir W H b pf (emit (AskQuestion ''Proceed?'' q) st))"
proof (cases "user_askquestion st q = ''no''")
  case True
  have run: "add_white_border ip op W H b pf st = (Inr PyNone, emit (AskQuestion ''Proceed?'' q) st)"
    using True neg question by (simp add: add_white_border_unfold [OF opened dims])
  have "process_loop (ip # ps) outdir W H b pf st =
          process_loop ps outdir W H b pf (emit (AskQuestion ''Proceed?'' q) st)"
    using run out by (simp add: Let_def)
  moreover have "trace (snd (add_white_border ip op W H b pf st)) =
      trace st @ AskQuestion ''Proceed?'' q # []"
    by (simp add: run emit_def)
  moreover have "image_files (snd (add_white_border ip op W H b pf st)) = image_files st"
    by (simp add: run emit_def)
  ultimately show ?thesis using run by blast
next
  case False
  let ?st1 = "emit (AskQuestion ''Proceed?'' q) st"
  let ?p = "fst (splitext op) @ pf @ snd (splitext op)"
  have run: "add_white_border ip op W H b pf st =
      render (oriented (Image_copy img)) ?p W H b rw rh cb ?st1"
    using False neg question by (simp add: add_white_border_unfold [OF opened dims])
  have "trace ?st1 = trace st @ [AskQuestion ''Proceed?'' q]"
    by (simp add: emit_def)
  with render_trace [of "oriented (Image_copy img)" ?p W H b rw rh cb ?st1]
  have "\<exists>rest. trace (snd (add_white_border ip op W H b pf st)) =
                  trace st @ AskQuestion ''Proceed?'' q # rest"
    unfolding run by (elim disjE) simp_all
  with False show ?thesis by blast
qed

theorem negative_border_asks_witness:
  "Image_open (desk [(''in/a.jpg'', portrait_image)] ''no'') ''in/a.jpg'' = Inr portrait_image \<and>
   resize_dims (im_width (oriented (Image_copy portrait_image)))
     (im_height (oriented (Image_copy portrait_image))) 500 1600 40 = Inr (760, 1520, - 130) \<and>
   (- 130 :: rat) < 0 \<and>
   join ''out'' (basename ''in/a.jpg'') = ''out'' @ [CHR 0x5C] @ ''a.jpg'' \<and>
   trace (snd (add_white_border ''in/a.jpg'' (join ''out'' (basename ''in/a.jpg''))
                 500 1600 40 ''_b'' (desk [(''in/a.jpg'', portrait_image)] ''no''))) =
     [AskQuestion ''Proceed?'' (crop_question (''out'' @ [CHR 0x5C] @ ''a''))] \<and>
   image_files (snd (add_white_border ''in/a.jpg'' (join ''out'' (basename ''in/a.jpg''))
                 500 1600 40 ''_b'' (desk [(''in/a.jpg'', portrait_image)] ''no''))) =
     [(''in/a.jpg'', portrait_image)] \<and>
   process_loop [''in/a.jpg'', ''in/b.jpg''] ''out'' 500 1600 40 ''_b''
       (desk [(''in/a.jpg'', portrait_image)] ''no'') =
     process_loop [''in/b.jpg''] ''out'' 500 1600 40 ''_b''
       (emit (AskQuestion ''Proceed?'' (crop_question (''out'' @ [CHR 0x5C] @ ''a'')))
          (desk [(''in/a.jpg'', portrait_image)] ''no''))"
proof -
  let ?w = "desk [(''in/a.jpg'', portrait_image)] ''no''"
  let ?q = "crop_question (''out'' @ [CHR 0x5C] @ ''a'')"
  have o: "Image_open ?w ''in/a.jpg'' = Inr portrait_image"
    by (simp add: Image_open_def desk_def)
  have d: "resize_dims (im_width (oriented (Image_copy portrait_image)))
     (im_height (oriented (Image_copy portrait_image))) 500 1600 40 = Inr (760, 1520, - 130)"
    by (simp add: run_defs)
  have n: "(- 130 :: rat) < 0" by simp
  have j: "join ''out'' (basename ''in/a.jpg'') = ''out'' @ [CHR 0x5C] @ ''a.jpg''"
    by (simp add: join_def basename_def rfind_def is_sep_def)
  have q: "?q = crop_question (fst (splitext (join ''out'' (basename ''in/a.jpg''))))"
    by (simp add: j splitext_def rfind_def is_sep_def)
  have a: "user_askquestion ?w ?q = ''no''"
    by (simp add: desk_def)
  note t = negative_border_asks [OF o d n refl q, of "''_b''" "[''in/b.jpg'']"]
  from t a have run: "add_white_border ''in/a.jpg'' (join ''out'' (basename ''in/a.jpg''))
                 500 1600 40 ''_b'' ?w = (Inr PyNone, emit (AskQuestion ''Proceed?'' ?q) ?w)"
    by blast
  from t a have loop: "process_loop [''in/a.jpg'', ''in/b.jpg''] ''out'' 500 1600 40 ''_b'' ?w =
     process_loop [''in/b.jpg''] ''out'' 500 1600 40 ''_b'' (emit (AskQuestion ''Proceed?'' ?q) ?w)"
    by blast
  have "trace (snd (add_white_border ''in/a.jpg'' (join ''out'' (basename ''in/a.jpg''))
                 500 1600 40 ''_b'' ?w)) = [AskQuestion ''Proceed?'' ?q]"
    unfolding run by (simp add: emit_def desk_def)
  moreover have "image_files (snd (add_white_border ''in/a.jpg''
                 (join ''out'' (basename ''in/a.jpg'')) 500 1600 40 ''_b'' ?w)) =
     [(''in/a.jpg'', portrait_image)]"
    unfolding run by (simp add: emit_def desk_def)
  ultimately show ?thesis using o d n j loop by simp
qed

text \<open>
  A landscape source of 4000 by 3000 pixels, a target of 1200 by 1500 and a border of
  50: the inner size is 1100 by 825 and the derived border 337.5, which is not negative.
\<close>

lemma landscape_scenario_border:
  "resize_dims 4000 3000 1200 1500 50 = Inr (1100, 825, 675 / 2)"
  using float_round_dyadic [of "675 / 2" 1]
  by (simp add: resize_dims_def true_div_def py_float_def float_sub_def float_half_def
        is_inf_def float_round_int)

text \<open>What \<open>save\<close> writes when it is given no format.\<close>

lemma Image_save_format:
  assumes "Image_save img p None q dpi st = (Inr u, st')"
  shows "map_option im_format (map_of (image_files st') p)
           = Some (EXTENSION st (lower (snd (splitext p)))) \<and>
         map_option im_dpi (map_of (image_files st') p) = Some dpi \<and>
         trace st' = trace st @ [Saved p None q dpi]"
  using assms
  by (auto simp: Image_save_def emit_def update_Some_unfold split: option.splits if_splits)

lemma render_format:
  assumes "render img p W H b rw rh cb st = (Inr v, st')" and "im_format img = None"
  shows "map_option im_format (map_of (image_files st') p)
           = Some (EXTENSION st (lower (snd (splitext p)))) \<and>
         map_option im_dpi (map_of (image_files st') p) = Some (im_dpi img) \<and>
         trace st' = trace st @ [Saved p None 100 (im_dpi img)]"
proof -
  from assms obtain bordered u where
    "Image_save bordered p None 100 (im_dpi img) st = (Inr u, st')"
    by (auto simp: render_def split: sum.splits prod.splits if_splits)
  then show ?thesis by (rule Image_save_format)
qed

text \<open>
  What every completed run saves: the image at the path with the postfix before the
  extension, the \<open>format\<close> argument empty, quality 100 and the density of the source,
  rotated or not. The format of the file is then the one registered for the extension of
  its name.
\<close>

lemma written_format_follows_extension:
  assumes run: "add_white_border ip op W H b pf st = (Inr (PyBool True), st')"
    and opened: "Image_open st ip = Inr img"
    and path: "p = fst (splitext op) @ pf @ snd (splitext op)"
  shows "map_option im_format (map_of (image_files st') p)
           = Some (EXTENSION st (lower (snd (splitext p)))) \<and>
         map_option im_dpi (map_of (image_files st') p) = Some (im_dpi img) \<and>
         last (trace st') = Saved p None 100 (im_dpi img)"
proof -
  let ?img = "oriented (Image_copy img)"
  from run opened obtain rw rh cb where
    dims: "resize_dims (im_width ?img) (im_height ?img) W H b = Inr (rw, rh, cb)"
    by (auto simp: add_white_border_def border_image_def Let_def split: sum.splits)
  from run add_white_border_unfold [OF opened dims, of op pf] obtain st1 where
    r: "render ?img p W H b rw rh cb st1 = (Inr (PyBool True), st')"
    and e: "EXTENSION st1 = EXTENSION st"
    unfolding path by (auto simp: emit_def split: if_splits)
  from render_format [OF r oriented_format] show ?thesis
    by (simp add: e oriented_dpi)
qed

text \<open>
  C6. The path, the quality and the density are as the claim says, but the format is
  not the one of the source: the \<open>format\<close> attribute of the copy that is passed to
  \<open>save\<close> is always empty. A JPEG photograph stored as \<open>photo.png\<close> is rotated and
  written as a PNG file.
\<close>

theorem renamed_photo_changes_format:
  "im_format camera_image = Some ''JPEG'' \<and>
   exif_rotation (Image_copy camera_image) = Some 270 \<and>
   fst (add_white_border ''in/photo.png'' ''out/photo.png'' 800 1600 40 ''_b''
          (desk [(''in/photo.png'', camera_image)] ''yes'')) = Inr (PyBool True) \<and>
   trace (snd (add_white_border ''in/photo.png'' ''out/photo.png'' 800 1600 40 ''_b''
          (desk [(''in/photo.png'', camera_image)] ''yes''))) =
     [Saved ''out/photo_b.png'' None 100 (Some (72, 72))] \<and>
   map_of (image_files (snd (add_white_border ''in/photo.png'' ''out/photo.png'' 800 1600 40
          ''_b'' (desk [(''in/photo.png'', camera_image)] ''yes'')))) ''out/photo_b.png'' =
     Some \<lparr>im_width = 800, im_height = 1600, im_format = Some ''PNG'',
           im_dpi = Some (72, 72), im_exif = []\<rparr>"
  by (simp add: run_defs camera_image_def)





text \<open>
  C10. When the user declines the crop, \<open>add_white_border\<close> returns \<open>None\<close>, not
  the \<open>False\<close> it had stored in \<open>return_value\<close>; in every other run that returns, it
  returns \<open>True\<close>. It never returns \<open>False\<close>: a caller can tell a declined crop only
  by the falsiness that \<open>None\<close> shares with \<open>False\<close>.
\<close>

theorem declined_crop_returns_None:
  assumes "Image_open st ip = Inr img"
    and "resize_dims (im_width (oriented (Image_copy img)))
           (im_height (oriented (Image_copy img))) W H b = Inr (rw, rh, cb)"
  shows "(cb < 0 \<and> user_askquestion st (crop_question (fst (splitext op))) = ''no''
            \<longrightarrow> fst (add_white_border ip op W H b pf st) = Inr PyNone) \<and>
         (\<not> (cb < 0 \<and> user_askquestion st (crop_question (fst (splitext op))) = ''no'')
            \<longrightarrow> (\<forall>v. fst (add_white_border ip op W H b pf st) = Inr v \<longrightarrow> v = PyBool True)) \<and>
         fst (add_white_border ip op W H b pf st) \<noteq> Inr (PyBool False) \<and>
         PyNone \<noteq> PyBool False \<and> truthy PyNone = truthy (PyBool False)"
proof (cases "cb < 0 \<and> user_askquestion st (crop_question (fst (splitext op))) = ''no''")
  case True
  then have "add_white_border ip op W H b pf st =
      (Inr PyNone, emit (AskQuestion ''Proceed?'' (crop_question (fst (splitext op)))) st)"
    by (simp add: add_white_border_unfold [OF assms])
  with True show ?thesis by simp
next
  case False
  then obtain st1 where
    "add_white_border ip op W H b pf st =
       render (oriented (Image_copy img)) (fst (splitext op) @ pf @ snd (splitext op))
         W H b rw rh cb st1"
    by (cases "cb < 0") (simp_all add: add_white_border_unfold [OF assms])
  then have "\<forall>v. fst (add_white_border ip op W H b pf st) = Inr v \<longrightarrow> v = PyBool True"
    by (simp add: render_never_False)
  moreover from this have "fst (add_white_border ip op W H b pf st) \<noteq> Inr (PyBool False)"
    by (metis pyval.inject)
  ultimately show ?thesis using False by (simp, blast)
qed

theorem declined_crop_returns_None_witness:
  "Image_open (desk [(''in/a.jpg'', portrait_image)] ''no'') ''in/a.jpg'' = Inr portrait_image \<and>
   resize_dims (im_width (oriented (Image_copy portrait_image)))
     (im_height (oriented (Image_copy portrait_image))) 500 1600 40 = Inr (760, 1520, - 130) \<and>
   fst (add_white_border ''in/a.jpg'' ''out/a.jpg'' 500 1600 40 ''_b''
          (desk [(''in/a.jpg'', portrait_image)] ''no'')) = Inr PyNone"
proof -
  have o1: "Image_open (desk [(''in/a.jpg'', portrait_image)] ''no'') ''in/a.jpg''
              = Inr portrait_image"
    by (simp add: Image_open_def desk_def)
  have d: "resize_dims (im_width (oriented (Image_copy portrait_image)))
     (im_height (oriented (Image_copy portrait_image))) 500 1600 40 = Inr (760, 1520, - 130)"
    by (simp add: run_defs)
  have no: "user_askquestion (desk [(''in/a.jpg'', portrait_image)] ''no'')
              (crop_question (fst (splitext ''out/a.jpg''))) = ''no''"
    by (simp add: desk_def)
  from declined_crop_returns_None [OF o1 d, of "''out/a.jpg''" "''_b''"] no
  have "fst (add_white_border ''in/a.jpg'' ''out/a.jpg'' 500 1600 40 ''_b''
          (desk [(''in/a.jpg'', portrait_image)] ''no'')) = Inr PyNone"
    by simp
  then show ?thesis using o1 d by simp
qed

section \<open>Properties of the configurations\<close>

text \<open>What a successful save leaves on the disk, and what a load makes of a record.\<close>

lemma save_configuration_writes:
  assumes "name \<noteq> []" and "write_ok st (name @ ''.json'')"
    and "source = Some ''button'' \<and> user_askstring st = Some name \<or>
         source \<noteq> Some ''button'' \<and> name = last_json_data"
  shows "map_of (cwd (save_configuration source st)) (name @ ''.json'') =
           Some (JsonObject
             [(''output_width'', width_entry st), (''output_height'', height_entry st),
              (''height_border_size'', border_size_height_entry st),
              (''postfix'', postfix_entry st)])"
  using assms
  by (auto simp: save_configuration_def Let_def update_Some_unfold)

lemma load_reads:
  assumes "map_of (cwd st) ((if event then load_combo_text st else last_json_data) @ ''.json'')
             = Some (JsonObject config)"
  shows "load_selected_configuration event st =
     (Inr (),
      (emit (Print config) st)
        \<lparr>width_entry := dict_get config ''output_width'' [],
         height_entry := dict_get config ''output_height'' [],
         border_size_height_entry := dict_get config ''height_border_size'' [],
         postfix_entry := dict_get config ''postfix'' []\<rparr>)"
  using assms by (simp add: load_selected_configuration_def Let_def split: if_splits)

text \<open>
  C8. Saving the four fields under a name that is not empty and whose file can be
  written, then loading that name from the dropdown, gives the four fields the values
  they had when they were saved, whatever was typed into them in between.
\<close>

theorem save_then_load_roundtrip:
  assumes asked: "user_askstring st = Some name"
    and valid: "name \<noteq> []" "write_ok st (name @ ''.json'')"
    and saved: "saved = save_configuration (Some ''button'') st"
    and later: "later = saved\<lparr>width_entry := w, height_entry := h,
                  border_size_height_entry := b, postfix_entry := p, load_combo_text := name\<rparr>"
    and loaded: "loaded = load_selected_configuration True later"
  shows "fst loaded = Inr () \<and>
         width_entry (snd loaded) = width_entry st \<and>
         height_entry (snd loaded) = height_entry st \<and>
         border_size_height_entry (snd loaded) = border_size_height_entry st \<and>
         postfix_entry (snd loaded) = postfix_entry st"
proof -
  let ?config = "[(''output_width'', width_entry st), (''output_height'', height_entry st),
              (''height_border_size'', border_size_height_entry st),
              (''postfix'', postfix_entry st)]"
  have "map_of (cwd saved) (name @ ''.json'') = Some (JsonObject ?config)"
    unfolding saved using valid asked by (intro save_configuration_writes) simp_all
  then have "map_of (cwd later)
      ((if True then load_combo_text later else last_json_data) @ ''.json'')
        = Some (JsonObject ?config)"
    by (simp add: later)
  from load_reads [OF this] show ?thesis
    by (simp add: loaded dict_get_def)
qed

theorem save_then_load_roundtrip_witness:
  "user_askstring (desk [] ''no'') = Some ''mine'' \<and> ''mine'' \<noteq> [] \<and>
   write_ok (desk [] ''no'') (''mine'' @ ''.json'') \<and>
   fst (load_selected_configuration True
          ((save_configuration (Some ''button'') (desk [] ''no''))
             \<lparr>width_entry := ''1'', height_entry := ''2'', border_size_height_entry := ''3'',
              postfix_entry := ''x'', load_combo_text := ''mine''\<rparr>)) = Inr () \<and>
   width_entry (snd (load_selected_configuration True
          ((save_configuration (Some ''button'') (desk [] ''no''))
             \<lparr>width_entry := ''1'', height_entry := ''2'', border_size_height_entry := ''3'',
              postfix_entry := ''x'', load_combo_text := ''mine''\<rparr>))) = ''800'' \<and>
   height_entry (snd (load_selected_configuration True
          ((save_configuration (Some ''button'') (desk [] ''no''))
             \<lparr>width_entry := ''1'', height_entry := ''2'', border_size_height_entry := ''3'',
              postfix_entry := ''x'', load_combo_text := ''mine''\<rparr>))) = ''1600'' \<and>
   border_size_height_entry (snd (load_selected_configuration True
          ((save_configuration (Some ''button'') (desk [] ''no''))
             \<lparr>width_entry := ''1'', height_entry := ''2'', border_size_height_entry := ''3'',
              postfix_entry := ''x'', load_combo_text := ''mine''\<rparr>))) = ''40'' \<and>
   postfix_entry (snd (load_selected_configuration True
          ((save_configuration (Some ''button'') (desk [] ''no''))
             \<lparr>width_entry := ''1'', height_entry := ''2'', border_size_height_entry := ''3'',
              postfix_entry := ''x'', load_combo_text := ''mine''\<rparr>))) = ''_b''"
proof -
  have a: "user_askstring (desk [] ''no'') = Some ''mine''"
    and n: "''mine'' \<noteq> []"
    and ok: "write_ok (desk [] ''no'') (''mine'' @ ''.json'')"
    by (simp_all add: desk_def)
  have e: "width_entry (desk [] ''no'') = ''800''" "height_entry (desk [] ''no'') = ''1600''"
    "border_size_height_entry (desk [] ''no'') = ''40''" "postfix_entry (desk [] ''no'') = ''_b''"
    by (simp_all add: desk_def)
  from save_then_load_roundtrip [OF a n ok refl refl refl,
      where w = "''1''" and h = "''2''" and b = "''3''" and p = "''x''"]
  show ?thesis using a ok unfolding e by simp
qed

text \<open>The same for the record of the last run, which is loaded at start-up.\<close>

lemma last_used_roundtrip:
  assumes "write_ok st (last_json_data @ ''.json'')"
    and "later = (save_configuration None st)\<lparr>width_entry := w, height_entry := h,
                  border_size_height_entry := b, postfix_entry := p\<rparr>"
  shows "width_entry (snd (load_selected_configuration False later)) = width_entry st \<and>
         height_entry (snd (load_selected_configuration False later)) = height_entry st \<and>
         border_size_height_entry (snd (load_selected_configuration False later))
           = border_size_height_entry st \<and>
         postfix_entry (snd (load_selected_configuration False later)) = postfix_entry st"
proof -
  let ?config = "[(''output_width'', width_entry st), (''output_height'', height_entry st),
              (''height_border_size'', border_size_height_entry st),
              (''postfix'', postfix_entry st)]"
  have "map_of (cwd (save_configuration None st)) (last_json_data @ ''.json'')
          = Some (JsonObject ?config)"
    using assms(1) by (intro save_configuration_writes) (simp_all add: last_json_data_def)
  then have "map_of (cwd later)
      ((if False then load_combo_text later else last_json_data) @ ''.json'')
        = Some (JsonObject ?config)"
    by (simp add: assms(2))
  from load_reads [OF this] show ?thesis
    by (simp add: dict_get_def)
qed

text \<open>
  C9. Loading a configuration whose file does not exist changes nothing: the four fields
  keep their values, no dialog is shown and no exception is raised.
\<close>

theorem load_missing_configuration:
  assumes "map_of (cwd st)
             ((if event then load_combo_text st else last_json_data) @ ''.json'') = None"
  shows "load_selected_configuration event st = (Inr (), st)"
  using assms by (simp add: load_selected_configuration_def Let_def split: if_splits)

theorem load_missing_configuration_witness:
  "map_of (cwd (desk [] ''no''))
     ((if True then load_combo_text (desk [] ''no'') else last_json_data) @ ''.json'') = None \<and>
   load_selected_configuration True (desk [] ''no'') = (Inr (), desk [] ''no'')"
proof -
  have h: "map_of (cwd (desk [] ''no''))
     ((if True then load_combo_text (desk [] ''no'') else last_json_data) @ ''.json'') = None"
    by (simp add: desk_def)
  from load_missing_configuration [OF h] h show ?thesis by simp
qed

section \<open>Properties of process_images\<close>

lemmas form_defs =
  process_images_def run_batch_def invalid_input_def save_configuration_def
  get_all_config_files_def endswith_def last_json_data_def py_int_def digits_int_def
  strip_def is_space_def is_digit_def digits_value_def emit_def Let_def desk_def

text \<open>What \<open>int\<close> reads and what it refuses.\<close>

lemma py_int_examples:
  "py_int '' 12 '' = Some 12 \<and> py_int ''-5'' = Some (- 5) \<and> py_int ''1_000'' = Some 1000 \<and>
   py_int ''12.5'' = None \<and> py_int ''- 5'' = None \<and> py_int [] = None \<and>
   py_int [CHR 0x1C, CHR ''5''] = None \<and>
   py_int [CHR 0xA0, CHR ''8'', CHR ''0'', CHR ''0''] = Some 800"
  by (simp add: py_int_def digits_int_def strip_def is_space_def is_digit_def
        digits_value_def)

text \<open>An error dialog changes nothing on the disk.\<close>

lemma invalid_input_unchanged:
  assumes "process_images st = invalid_input msg st"
  shows "(\<exists>msg. process_images st = (Inr (), emit (ShowError ''Invalid Input'' msg) st)) \<and>
          cwd (snd (process_images st)) = cwd st \<and>
          image_files (snd (process_images st)) = image_files st \<and>
          dirs (snd (process_images st)) = dirs st"
proof -
  have eq: "process_images st = (Inr (), emit (ShowError ''Invalid Input'' msg) st)"
    using assms by (simp add: invalid_input_def)
  have "\<exists>msg. process_images st = (Inr (), emit (ShowError ''Invalid Input'' msg) st)"
    by (rule exI [of _ msg]) (rule eq)
  moreover have "cwd (snd (process_images st)) = cwd st"
    "image_files (snd (process_images st)) = image_files st"
    "dirs (snd (process_images st)) = dirs st"
    unfolding eq by (simp_all add: emit_def)
  ultimately show ?thesis by (intro conjI)
qed

text \<open>
  C5, as the code has it. \<open>process_images\<close> checks that the width, the height and the
  border size each read as an integer, of any sign, and that the postfix is not empty.
  When the check fails it shows one error dialog and returns: no configuration file, no
  image file and no directory is touched. When it succeeds the batch runs on the three
  integers and the postfix.
\<close>

theorem process_images_validation:
  "(py_int (width_entry st) = None \<or> py_int (height_entry st) = None \<or>
    py_int (border_size_height_entry st) = None \<or> postfix_entry st = []
      \<longrightarrow> (\<exists>msg. process_images st = (Inr (), emit (ShowError ''Invalid Input'' msg) st)) \<and>
          cwd (snd (process_images st)) = cwd st \<and>
          image_files (snd (process_images st)) = image_files st \<and>
          dirs (snd (process_images st)) = dirs st) \<and>
   (\<not> (py_int (width_entry st) = None \<or> py_int (height_entry st) = None \<or>
        py_int (border_size_height_entry st) = None \<or> postfix_entry st = [])
      \<longrightarrow> (\<exists>output_width output_height height_border_size.
            py_int (width_entry st) = Some output_width \<and>
            py_int (height_entry st) = Some output_height \<and>
            py_int (border_size_height_entry st) = Some height_border_size \<and>
            process_images st =
              run_batch output_width output_height height_border_size (postfix_entry st) st))"
  (is "(?bad \<longrightarrow> ?quiet) \<and> (\<not> ?bad \<longrightarrow> ?runs)")
proof (cases "py_int (width_entry st) = None \<or> py_int (height_entry st) = None \<or>
    py_int (border_size_height_entry st) = None")
  case True
  then have "process_images st = invalid_input ''Please enter valid values.'' st"
    by (auto simp: process_images_def split: option.splits)
  then have ?quiet by (rule invalid_input_unchanged)
  moreover from True have ?bad by blast
  ultimately show ?thesis by blast
next
  case False
  then obtain output_width output_height height_border_size where
    parsed: "py_int (width_entry st) = Some output_width"
      "py_int (height_entry st) = Some output_height"
      "py_int (border_size_height_entry st) = Some height_border_size"
    by auto
  show ?thesis
  proof (cases "postfix_entry st = []")
    case True
    then have "process_images st =
      invalid_input ''Add a postfix to avoid modifying the original photo.'' st"
      by (simp add: process_images_def parsed)
    then have ?quiet by (rule invalid_input_unchanged)
    moreover from True have ?bad by blast
    ultimately show ?thesis by blast
  next
    case nonempty: False
    then have "process_images st =
        run_batch output_width output_height height_border_size (postfix_entry st) st"
      by (simp add: process_images_def parsed)
    with parsed have ?runs by blast
    moreover from False nonempty have "\<not> ?bad" by blast
    ultimately show ?thesis by blast
  qed
qed

theorem process_images_validation_witness:
  "py_int (width_entry mistyped_form) = None \<and>
   (\<exists>msg. process_images mistyped_form =
       (Inr (), emit (ShowError ''Invalid Input'' msg) mistyped_form)) \<and>
   cwd (snd (process_images mistyped_form)) = cwd mistyped_form \<and>
   image_files (snd (process_images mistyped_form)) = image_files mistyped_form \<and>
   dirs (snd (process_images mistyped_form)) = dirs mistyped_form"
proof -
  have bad: "py_int (width_entry mistyped_form) = None"
    by (simp add: mistyped_form_def form_defs)
  with process_images_validation [of mistyped_form] show ?thesis
    by blast
qed

text \<open>
  A width of -5, a height of 0 and a border of -1 pass the check: no error is reported,
  and the values are written to the record of the last run.
\<close>

theorem negative_sizes_pass_validation:
  "py_int (width_entry careless_form) = Some (- 5) \<and>
   py_int (height_entry careless_form) = Some 0 \<and>
   py_int (border_size_height_entry careless_form) = Some (- 1) \<and>
   fst (process_images careless_form) = Inr () \<and>
   trace (snd (process_images careless_form)) = [] \<and>
   cwd (snd (process_images careless_form)) =
     [(''last_config.json'',
       JsonObject [(''output_width'', ''-5''), (''output_height'', ''0''),
                   (''height_border_size'', ''-1''), (''postfix'', ''_b'')])]"
  by (simp add: form_defs careless_form_def)

end
